theory Spec2Isabelle
  imports Main "HOL-Library.AList"
begin

section \<open>Time\<close>

text \<open>
  A \<open>time.Time\<close> instant is an integer count of nanoseconds on one time line and a
  \<open>time.Duration\<close> is an integer count of nanoseconds. \<open>t.After(u)\<close> is \<open>u < t\<close>,
  \<open>t.Before(u)\<close> is \<open>t < u\<close>, \<open>t.Add(d)\<close> is \<open>t + d\<close>. A duration is negated
  in 64 bits before it is added (\<open>time.Now().Add(-duration)\<close>).
  Every function that reads \<open>time.Now()\<close> takes the reading as its argument \<open>now\<close>;
  the clock reads made inside one call are identified.
  The mutexes and the logger (an external sink that the stores never read back) are not
  part of the state.
\<close>

definition Second :: int where
  "Second = 1000000000"

definition Minute :: int where
  "Minute = 60 * Second"

text \<open>Go's \<open>int\<close> and \<open>time.Duration\<close> are 64-bit signed; a product wraps around.\<close>

definition wrap64 :: "int \<Rightarrow> int" where
  "wrap64 x = (x + 2 ^ 63) mod 2 ^ 64 - 2 ^ 63"

section \<open>Traffic monitor (internal/monitor/traffic.go)\<close>

record QueryInfo =
  Domain_name :: string
  QueryType :: string
  Timestamp :: int

record IPStats =
  RequestCount :: int
  LastRequestTime :: int
  Queries :: "QueryInfo list"
  FirstSeen :: int

record TrafficMonitor =
  stats :: "string \<rightharpoonup> IPStats"

definition NewTrafficMonitor :: TrafficMonitor where
  "NewTrafficMonitor = \<lparr>stats = Map.empty\<rparr>"

definition RecordRequest :: "string \<Rightarrow> string \<Rightarrow> string \<Rightarrow> int \<Rightarrow> TrafficMonitor \<Rightarrow> TrafficMonitor" where
  "RecordRequest ip domain qtype now tm =
     (let st0 = (case stats tm ip of
                   None \<Rightarrow> \<lparr>RequestCount = 0, LastRequestTime = 0, Queries = [], FirstSeen = now\<rparr>
                 | Some s \<Rightarrow> s);
          qs = (if length (Queries st0) \<ge> 100 then drop 1 (Queries st0) else Queries st0);
          st = st0\<lparr>RequestCount := RequestCount st0 + 1,
                   LastRequestTime := now,
                   Queries := qs @ [\<lparr>Domain_name = domain, QueryType = qtype, Timestamp = now\<rparr>]\<rparr>
      in tm\<lparr>stats := (stats tm)(ip \<mapsto> st)\<rparr>)"

text \<open>The counting loop of \<open>GetRecentRequestCount\<close>, with its counter as accumulator.\<close>

fun count_loop :: "int \<Rightarrow> QueryInfo list \<Rightarrow> int \<Rightarrow> int" where
  "count_loop cutoff [] count = count"
| "count_loop cutoff (query # rest) count =
     count_loop cutoff rest (if cutoff < Timestamp query then count + 1 else count)"

definition GetRecentRequestCount :: "string \<Rightarrow> int \<Rightarrow> int \<Rightarrow> TrafficMonitor \<Rightarrow> int" where
  "GetRecentRequestCount ip duration now tm =
     (case stats tm ip of
        None \<Rightarrow> 0
      | Some s \<Rightarrow> count_loop (now + wrap64 (- duration)) (Queries s) 0)"

text \<open>The collecting loop of \<open>GetRecentQueries\<close>; an unknown address gives \<open>nil\<close>.\<close>

fun recent_loop :: "int \<Rightarrow> QueryInfo list \<Rightarrow> QueryInfo list \<Rightarrow> QueryInfo list" where
  "recent_loop cutoff [] recent = recent"
| "recent_loop cutoff (query # rest) recent =
     recent_loop cutoff rest (if cutoff < Timestamp query then recent @ [query] else recent)"

definition GetRecentQueries :: "string \<Rightarrow> int \<Rightarrow> int \<Rightarrow> TrafficMonitor \<Rightarrow> QueryInfo list" where
  "GetRecentQueries ip duration now tm =
     (case stats tm ip of
        None \<Rightarrow> []
      | Some s \<Rightarrow> recent_loop (now + wrap64 (- duration)) (Queries s) [])"

definition cleanup_monitor :: "int \<Rightarrow> TrafficMonitor \<Rightarrow> TrafficMonitor" where
  "cleanup_monitor now tm =
     tm\<lparr>stats := (\<lambda>ip. case stats tm ip of
                         None \<Rightarrow> None
                       | Some s \<Rightarrow> if LastRequestTime s < now - 30 * Minute then None else Some s)\<rparr>"

text \<open>A sequence of \<open>RecordRequest\<close> calls \<open>(ip, domain, qtype, now)\<close>, oldest first.\<close>

type_synonym record_call = "string \<times> string \<times> string \<times> int"

fun record_all :: "record_call list \<Rightarrow> TrafficMonitor \<Rightarrow> TrafficMonitor" where
  "record_all [] tm = tm"
| "record_all ((ip, domain, qtype, now) # calls) tm =
     record_all calls (RecordRequest ip domain qtype now tm)"

definition queries_of :: "TrafficMonitor \<Rightarrow> string \<Rightarrow> QueryInfo list" where
  "queries_of tm ip = (case stats tm ip of None \<Rightarrow> [] | Some s \<Rightarrow> Queries s)"

definition event_of :: "record_call \<Rightarrow> QueryInfo" where
  "event_of c = (case c of (ip, domain, qtype, now) \<Rightarrow>
     \<lparr>Domain_name = domain, QueryType = qtype, Timestamp = now\<rparr>)"

definition events_for :: "string \<Rightarrow> record_call list \<Rightarrow> QueryInfo list" where
  "events_for ip calls = map event_of (filter (\<lambda>c. fst c = ip) calls)"

definition last_n :: "nat \<Rightarrow> 'a list \<Rightarrow> 'a list" where
  "last_n n xs = drop (length xs - n) xs"


section \<open>Detector (package detector)\<close>

record DDoSDetector =
  rateLimit :: int

definition NewDDoSDetector :: "int \<Rightarrow> DDoSDetector" where
  "NewDDoSDetector rl = \<lparr>rateLimit = rl\<rparr>"

record DetectionResult =
  IsAttack :: bool
  AttackType :: string
  Severity :: string
  Description :: string
  ShouldBlock :: bool

text \<open>
  The detector compares quotients of \<open>float64\<close> conversions of two \<open>int\<close>s with a small
  constant. For operands far below \<open>2 ^ 50\<close> (the counts here are list lengths) the
  rounded quotient lies on the same side of the constant as the exact one, so the
  comparison is the cross-multiplied integer one; a zero divisor gives an infinity or
  NaN, which exceeds the constant only for a positive dividend.
\<close>

definition ratio_gt :: "int \<Rightarrow> int \<Rightarrow> int \<Rightarrow> bool" where
  "ratio_gt a b k =
     (if 0 < b then k * b < a
      else if b < 0 then a < k * b
      else 0 < a)"

definition calculateSeverity :: "int \<Rightarrow> int \<Rightarrow> string" where
  "calculateSeverity requestCount limit =
     (if ratio_gt requestCount limit 5 then ''high''
      else if ratio_gt requestCount limit 2 then ''medium''
      else ''low'')"

text \<open>
  A Go map that is only filled and then ranged over is an association list with distinct
  keys; every range loop below returns on the first entry that passes a test, so the
  iteration order does not show in the result.
\<close>

definition incr :: "string \<Rightarrow> (string \<times> int) list \<Rightarrow> (string \<times> int) list" where
  "incr k m = AList.update k ((case map_of m k of None \<Rightarrow> 0 | Some c \<Rightarrow> c) + 1) m"

fun domainCounts_loop :: "QueryInfo list \<Rightarrow> (string \<times> int) list \<Rightarrow> (string \<times> int) list" where
  "domainCounts_loop [] m = m"
| "domainCounts_loop (q # rest) m = domainCounts_loop rest (incr (Domain_name q) m)"

definition checkRepeatedQueries :: "QueryInfo list \<Rightarrow> bool" where
  "checkRepeatedQueries queries =
     (if length queries < 20 then False
      else list_ex (\<lambda>(domain, count). int (length queries) < 2 * count \<and> 10 < count)
             (domainCounts_loop queries []))"

text \<open>\<open>strings.Split(s, ".")\<close> and \<open>strings.Join(parts, ".")\<close>.\<close>

fun split_dot :: "string \<Rightarrow> string list" where
  "split_dot [] = [[]]"
| "split_dot (c # cs) =
     (if c = CHR ''.'' then [] # split_dot cs
      else (case split_dot cs of
              [] \<Rightarrow> [[c]]
            | p # ps \<Rightarrow> (c # p) # ps))"

fun join_dot :: "string list \<Rightarrow> string" where
  "join_dot [] = []"
| "join_dot [p] = p"
| "join_dot (p # ps) = p @ ''.'' @ join_dot ps"

definition is_digit :: "char \<Rightarrow> bool" where
  "is_digit c = ((48::nat) \<le> of_char c \<and> of_char c \<le> (57::nat))"

definition looksRandom :: "string \<Rightarrow> bool" where
  "looksRandom s =
     (if length s < 8 then False
      else int (length s) < 2 * int (length (filter is_digit s)))"

definition append_sub :: "string \<Rightarrow> string \<Rightarrow> (string \<times> string list) list \<Rightarrow> (string \<times> string list) list" where
  "append_sub k sub m = AList.update k ((case map_of m k of None \<Rightarrow> [] | Some v \<Rightarrow> v) @ [sub]) m"

fun baseDomains_loop :: "QueryInfo list \<Rightarrow> (string \<times> string list) list \<Rightarrow> (string \<times> string list) list" where
  "baseDomains_loop [] m = m"
| "baseDomains_loop (q # rest) m =
     (let parts = split_dot (Domain_name q) in
      if 2 \<le> length parts then
        (let baseDomain = join_dot (drop (length parts - 2) parts);
             subdomain = join_dot (take (length parts - 2) parts)
         in if subdomain \<noteq> [] then baseDomains_loop rest (append_sub baseDomain subdomain m)
            else baseDomains_loop rest m)
      else baseDomains_loop rest m)"

definition checkRandomSubdomains :: "QueryInfo list \<Rightarrow> bool" where
  "checkRandomSubdomains queries =
     (if length queries < 30 then False
      else list_ex (\<lambda>(baseDomain, subdomains).
                      (let uniqueSubdomains = remdups subdomains in
                       20 < length uniqueSubdomains \<or>
                       10 < length (filter looksRandom uniqueSubdomains)))
             (baseDomains_loop queries []))"

definition checkQueryBurst :: "QueryInfo list \<Rightarrow> int \<Rightarrow> bool" where
  "checkQueryBurst queries now =
     (if length queries < 10 then False
      else 50 < count_loop (now - 10 * Second) queries 0)"

definition AnalyzeTraffic :: "DDoSDetector \<Rightarrow> string \<Rightarrow> TrafficMonitor \<Rightarrow> int \<Rightarrow> DetectionResult" where
  "AnalyzeTraffic d ip trafficMonitor now =
     (let result = \<lparr>IsAttack = False, AttackType = [], Severity = [], Description = [],
                     ShouldBlock = False\<rparr>;
          recentCount = GetRecentRequestCount ip (1 * Minute) now trafficMonitor
      in if rateLimit d < recentCount then
           result\<lparr>IsAttack := True,
                  AttackType := ''high_request_rate'',
                  Severity := calculateSeverity recentCount (rateLimit d),
                  Description := ''Excessive request rate detected'',
                  ShouldBlock := (wrap64 (rateLimit d * 2) < recentCount)\<rparr>
         else
           (let queries = GetRecentQueries ip (1 * Minute) now trafficMonitor
            in if checkRepeatedQueries queries then
                 result\<lparr>IsAttack := True,
                        AttackType := ''repeated_queries'',
                        Severity := ''medium'',
                        Description := ''Repeated queries to same domain detected'',
                        ShouldBlock := True\<rparr>
               else if checkRandomSubdomains queries then
                 result\<lparr>IsAttack := True,
                        AttackType := ''random_subdomain'',
                        Severity := ''high'',
                        Description := ''Random subdomain attack detected'',
                        ShouldBlock := True\<rparr>
               else if checkQueryBurst queries now then
                 result\<lparr>IsAttack := True,
                        AttackType := ''query_burst'',
                        Severity := ''medium'',
                        Description := ''Query burst detected'',
                        ShouldBlock := False\<rparr>
               else result))"

section \<open>Blocker (package blocker)\<close>

record BlockedIP =
  IP :: string
  BlockedAt :: int
  BlockUntil :: int
  Reason :: string
  BlockCount :: int

record IPBlocker =
  blockedIPs :: "string \<rightharpoonup> BlockedIP"
  rateLimitedIPs :: "string \<rightharpoonup> int"
  blockDuration :: int
  rateLimitWindow :: int

definition NewIPBlocker :: "int \<Rightarrow> IPBlocker" where
  "NewIPBlocker d =
     \<lparr>blockedIPs = Map.empty, rateLimitedIPs = Map.empty, blockDuration = d,
      rateLimitWindow = 30 * Second\<rparr>"

definition IsBlocked :: "string \<Rightarrow> int \<Rightarrow> IPBlocker \<Rightarrow> bool \<times> IPBlocker" where
  "IsBlocked ip now b =
     (case blockedIPs b ip of
        Some blocked \<Rightarrow>
          if now < BlockUntil blocked then (True, b)
          else (False, b\<lparr>blockedIPs := (blockedIPs b)(ip := None)\<rparr>)
      | None \<Rightarrow> (False, b))"

definition IsRateLimited :: "string \<Rightarrow> int \<Rightarrow> IPBlocker \<Rightarrow> bool \<times> IPBlocker" where
  "IsRateLimited ip now b =
     (case rateLimitedIPs b ip of
        Some limitedUntil \<Rightarrow>
          if now < limitedUntil then (True, b)
          else (False, b\<lparr>rateLimitedIPs := (rateLimitedIPs b)(ip := None)\<rparr>)
      | None \<Rightarrow> (False, b))"

text \<open>
  \<open>BlockCount\<close> starts at 1 and grows by one per call, so the 64-bit bound is out of
  reach and the counter is an unbounded integer.
\<close>

definition BlockIP :: "string \<Rightarrow> string \<Rightarrow> int \<Rightarrow> IPBlocker \<Rightarrow> IPBlocker" where
  "BlockIP ip reason now b =
     (let blockUntil = now + wrap64 (blockDuration b * Second) in
      case blockedIPs b ip of
        Some blocked \<Rightarrow>
          b\<lparr>blockedIPs := (blockedIPs b)(ip \<mapsto>
               blocked\<lparr>BlockUntil := blockUntil,
                       BlockCount := BlockCount blocked + 1,
                       Reason := reason\<rparr>)\<rparr>
      | None \<Rightarrow>
          b\<lparr>blockedIPs := (blockedIPs b)(ip \<mapsto>
               \<lparr>IP = ip, BlockedAt = now, BlockUntil = blockUntil, Reason = reason,
                BlockCount = 1\<rparr>)\<rparr>)"

definition RateLimitIP :: "string \<Rightarrow> int \<Rightarrow> IPBlocker \<Rightarrow> IPBlocker" where
  "RateLimitIP ip now b =
     b\<lparr>rateLimitedIPs := (rateLimitedIPs b)(ip \<mapsto> now + rateLimitWindow b)\<rparr>"

definition UnblockIP :: "string \<Rightarrow> IPBlocker \<Rightarrow> IPBlocker" where
  "UnblockIP ip b =
     b\<lparr>blockedIPs := (blockedIPs b)(ip := None),
       rateLimitedIPs := (rateLimitedIPs b)(ip := None)\<rparr>"

definition cleanup :: "int \<Rightarrow> IPBlocker \<Rightarrow> IPBlocker" where
  "cleanup now b =
     b\<lparr>blockedIPs := (\<lambda>ip. case blockedIPs b ip of
                              None \<Rightarrow> None
                            | Some blocked \<Rightarrow> if BlockUntil blocked < now then None else Some blocked),
       rateLimitedIPs := (\<lambda>ip. case rateLimitedIPs b ip of
                                  None \<Rightarrow> None
                                | Some limitUntil \<Rightarrow> if limitUntil < now then None else Some limitUntil)\<rparr>"

text \<open>
  The calls that can change the blocker, each with the kind of lock its body runs under
  (\<open>b.mu.RLock()\<close> or \<open>b.mu.Lock()\<close> in its first line), and a run of timed calls from a
  given blocker.
\<close>

datatype blocker_call =
    CallIsBlocked string
  | CallIsRateLimited string
  | CallBlockIP string string
  | CallRateLimitIP string
  | CallUnblockIP string
  | CallCleanup

datatype lock_mode = RLock | Lock

fun lock_taken :: "blocker_call \<Rightarrow> lock_mode" where
  "lock_taken (CallIsBlocked ip) = RLock"
| "lock_taken (CallIsRateLimited ip) = RLock"
| "lock_taken (CallBlockIP ip reason) = Lock"
| "lock_taken (CallRateLimitIP ip) = Lock"
| "lock_taken (CallUnblockIP ip) = Lock"
| "lock_taken CallCleanup = Lock"

fun blocker_step :: "int \<Rightarrow> blocker_call \<Rightarrow> IPBlocker \<Rightarrow> IPBlocker" where
  "blocker_step now (CallIsBlocked ip) b = snd (IsBlocked ip now b)"
| "blocker_step now (CallIsRateLimited ip) b = snd (IsRateLimited ip now b)"
| "blocker_step now (CallBlockIP ip reason) b = BlockIP ip reason now b"
| "blocker_step now (CallRateLimitIP ip) b = RateLimitIP ip now b"
| "blocker_step now (CallUnblockIP ip) b = UnblockIP ip b"
| "blocker_step now CallCleanup b = cleanup now b"

fun run_calls :: "(int \<times> blocker_call) list \<Rightarrow> IPBlocker \<Rightarrow> IPBlocker" where
  "run_calls [] b = b"
| "run_calls ((now, c) # rest) b = run_calls rest (blocker_step now c b)"


section \<open>Reference notions and sample inputs\<close>

text \<open>
  The two readings of "the events inside the window": the closed interval
  \<open>[now - w, now]\<close> and the interval \<open>(now - w, now]\<close> that leaves its lower end out.
\<close>

definition closed_window_count :: "QueryInfo list \<Rightarrow> int \<Rightarrow> int \<Rightarrow> int" where
  "closed_window_count events w now =
     int (length (filter (\<lambda>q. now - w \<le> Timestamp q \<and> Timestamp q \<le> now) events))"

definition half_open_window_count :: "QueryInfo list \<Rightarrow> int \<Rightarrow> int \<Rightarrow> int" where
  "half_open_window_count events w now =
     int (length (filter (\<lambda>q. now - w < Timestamp q \<and> Timestamp q \<le> now) events))"

text \<open>The retained events of an address that are later than \<open>now - w\<close>.\<close>

definition events_within :: "TrafficMonitor \<Rightarrow> string \<Rightarrow> int \<Rightarrow> int \<Rightarrow> QueryInfo list" where
  "events_within tm ip w now = filter (\<lambda>q. now - w < Timestamp q) (queries_of tm ip)"

text \<open>
  The repeated-query condition in words: at least 20 events, and one queried name that
  makes up more than half of them and occurs more than 10 times.
\<close>

definition name_count :: "QueryInfo list \<Rightarrow> string \<Rightarrow> int" where
  "name_count events name = int (length (filter (\<lambda>q. Domain_name q = name) events))"

definition repeated_query_condition :: "QueryInfo list \<Rightarrow> bool" where
  "repeated_query_condition events =
     (20 \<le> length events \<and>
      list_ex (\<lambda>name. int (length events) < 2 * name_count events name \<and>
                       10 < name_count events name)
        (map Domain_name events))"

definition count_in :: "(string \<times> int) list \<Rightarrow> string \<Rightarrow> int" where
  "count_in m k = (case map_of m k of None \<Rightarrow> 0 | Some c \<Rightarrow> c)"

text \<open>\<open>n\<close> requests of one address for one name, one millisecond apart, from time 0.\<close>

definition flood :: "string \<Rightarrow> string \<Rightarrow> nat \<Rightarrow> record_call list" where
  "flood ip name n = map (\<lambda>i. (ip, name, ''A'', int i * 1000000)) [0..<n]"

definition flood_event :: "string \<Rightarrow> nat \<Rightarrow> QueryInfo" where
  "flood_event name i = \<lparr>Domain_name = name, QueryType = ''A'', Timestamp = int i * 1000000\<rparr>"

definition two_event_monitor :: TrafficMonitor where
  "two_event_monitor =
     RecordRequest ''10.0.0.1'' ''example.com'' ''A'' (30 * Second)
       (RecordRequest ''10.0.0.1'' ''example.com'' ''A'' 0 NewTrafficMonitor)"

definition expired_block :: IPBlocker where
  "expired_block = BlockIP ''10.0.0.1'' ''high_request_rate'' 0 (NewIPBlocker 300)"

text \<open>Every expiry in the block map was set by a call made at or before time \<open>T\<close>.\<close>

definition block_window :: "IPBlocker \<Rightarrow> int" where
  "block_window b = wrap64 (blockDuration b * Second)"

definition until_bounded :: "int \<Rightarrow> IPBlocker \<Rightarrow> bool" where
  "until_bounded T b =
     (\<forall>ip e. blockedIPs b ip = Some e \<longrightarrow> BlockUntil e \<le> T + block_window b)"

section \<open>Properties of the traffic monitor\<close>

lemma record_all_append: "record_all (cs @ ds) tm = record_all ds (record_all cs tm)"
  by (induction cs arbitrary: tm) auto

lemma queries_of_RecordRequest:
  "queries_of (RecordRequest ip domain qtype now tm) ip' =
     (if ip' = ip
      then (if 100 \<le> length (queries_of tm ip) then drop 1 (queries_of tm ip) else queries_of tm ip)
             @ [\<lparr>Domain_name = domain, QueryType = qtype, Timestamp = now\<rparr>]
      else queries_of tm ip')"
  by (auto simp: queries_of_def RecordRequest_def Let_def split: option.splits)

lemma last_n_snoc:
  "last_n 100 (xs @ [x]) =
     (if 100 \<le> length (last_n 100 xs) then drop 1 (last_n 100 xs) else last_n 100 xs) @ [x]"
proof (cases "100 \<le> length xs")
  case True
  then have "Suc (length xs - 100) = length xs - 99" by arith
  with True show ?thesis by (simp add: last_n_def)
next
  case False
  then show ?thesis by (simp add: last_n_def)
qed

lemma length_last_n: "length (last_n n xs) = min n (length xs)"
  by (auto simp: last_n_def)

lemma queries_of_New: "queries_of NewTrafficMonitor ip = []"
  by (simp add: queries_of_def NewTrafficMonitor_def)

lemma queries_of_record_all:
  "queries_of (record_all calls NewTrafficMonitor) ip = last_n 100 (events_for ip calls)"
proof (induction calls rule: rev_induct)
  case Nil
  show ?case by (simp add: queries_of_New events_for_def last_n_def)
next
  case (snoc c calls)
  obtain a d q t where c: "c = (a, d, q, t)" by (cases c) auto
  show ?case
  proof (cases "a = ip")
    case True
    with c snoc show ?thesis
      by (simp add: record_all_append queries_of_RecordRequest events_for_def event_of_def last_n_snoc)
  next
    case False
    with c snoc show ?thesis
      by (simp add: record_all_append queries_of_RecordRequest events_for_def)
  qed
qed

text \<open>
  C3. After any sequence of \<open>RecordRequest\<close> calls on a new monitor, the buffer of every
  address holds at most 100 entries, and it holds exactly the last 100 (or fewer) events
  recorded for that address, in recording order. One more call for the address appends
  its event and, when the buffer is full, drops exactly the oldest entry.
\<close>

theorem cap_invariant:
  "length (queries_of (record_all calls NewTrafficMonitor) ip) \<le> 100 \<and>
   queries_of (record_all calls NewTrafficMonitor) ip = last_n 100 (events_for ip calls) \<and>
   queries_of (RecordRequest ip domain qtype now (record_all calls NewTrafficMonitor)) ip =
     (if length (queries_of (record_all calls NewTrafficMonitor) ip) = 100
      then tl (queries_of (record_all calls NewTrafficMonitor) ip)
      else queries_of (record_all calls NewTrafficMonitor) ip)
     @ [\<lparr>Domain_name = domain, QueryType = qtype, Timestamp = now\<rparr>]"
proof -
  let ?qs = "queries_of (record_all calls NewTrafficMonitor) ip"
  have eq: "?qs = last_n 100 (events_for ip calls)"
    by (rule queries_of_record_all)
  then have len: "length ?qs \<le> 100"
    by (simp add: length_last_n)
  have step: "queries_of (RecordRequest ip domain qtype now (record_all calls NewTrafficMonitor)) ip =
     (if length ?qs = 100 then tl ?qs else ?qs)
     @ [\<lparr>Domain_name = domain, QueryType = qtype, Timestamp = now\<rparr>]"
    using len by (auto simp: queries_of_RecordRequest drop_Suc)
  from len eq step show ?thesis by blast
qed

lemma count_loop_eq:
  "count_loop cutoff qs c = c + int (length (filter (\<lambda>q. cutoff < Timestamp q) qs))"
  by (induction qs arbitrary: c) auto

lemma recent_loop_eq:
  "recent_loop cutoff qs acc = acc @ filter (\<lambda>q. cutoff < Timestamp q) qs"
  by (induction qs arbitrary: acc) auto

lemma wrap64_uminus:
  assumes "- (2 ^ 63) < w" and "w < 2 ^ 63"
  shows "wrap64 (- w) = - w"
  using assms by (simp add: wrap64_def)

lemma Minute_range: "- (2 ^ 63) < 1 * Minute" "1 * Minute < 2 ^ 63"
  by (simp_all add: Minute_def Second_def)

lemma GetRecentRequestCount_cutoff:
  "GetRecentRequestCount ip w now tm =
     int (length (filter (\<lambda>q. now + wrap64 (- w) < Timestamp q) (queries_of tm ip)))"
  by (simp add: GetRecentRequestCount_def queries_of_def count_loop_eq split: option.splits)

lemma GetRecentQueries_cutoff:
  "GetRecentQueries ip w now tm =
     filter (\<lambda>q. now + wrap64 (- w) < Timestamp q) (queries_of tm ip)"
  by (simp add: GetRecentQueries_def queries_of_def recent_loop_eq split: option.splits)

lemma GetRecentRequestCount_eq:
  assumes "- (2 ^ 63) < w" and "w < 2 ^ 63"
  shows "GetRecentRequestCount ip w now tm =
     int (length (filter (\<lambda>q. now - w < Timestamp q) (queries_of tm ip)))"
  by (simp add: GetRecentRequestCount_cutoff wrap64_uminus [OF assms])

lemma GetRecentQueries_eq:
  assumes "- (2 ^ 63) < w" and "w < 2 ^ 63"
  shows "GetRecentQueries ip w now tm = filter (\<lambda>q. now - w < Timestamp q) (queries_of tm ip)"
  by (simp add: GetRecentQueries_cutoff wrap64_uminus [OF assms])


text \<open>
  C2 (as stated). \<open>GetRecentRequestCount\<close> keeps an event only if its timestamp is
  strictly after \<open>now - w\<close>: one event recorded at time 0 is not counted at
  \<open>now = w = 1 minute\<close>, although it lies in the closed interval \<open>[now - w, now]\<close>.
\<close>

theorem recent_count_boundary_counterexample:
  "GetRecentRequestCount ''10.0.0.1'' Minute Minute
     (RecordRequest ''10.0.0.1'' ''example.com'' ''A'' 0 NewTrafficMonitor) = 0 \<and>
   closed_window_count
     (queries_of (RecordRequest ''10.0.0.1'' ''example.com'' ''A'' 0 NewTrafficMonitor) ''10.0.0.1'')
     Minute Minute = 1"
  by (simp add: GetRecentRequestCount_def RecordRequest_def NewTrafficMonitor_def
      closed_window_count_def queries_of_def Minute_def Second_def wrap64_def)


text \<open>
  C2 (amended). For every address, time \<open>now\<close> and window \<open>w\<close> that is a 64-bit
  duration other than the least one (so for every window length from 0 up),
  \<open>GetRecentRequestCount\<close> is the number of retained events of the address whose
  timestamp is strictly after \<open>now - w\<close>; when no retained timestamp is after \<open>now\<close>
  this is the number of events in \<open>(now - w, now]\<close>, so an event at exactly \<open>now - w\<close>
  is left out. For an unknown address it is 0.
\<close>

theorem recent_count_window:
  assumes "- (2 ^ 63) < w" and "w < 2 ^ 63"
  shows "GetRecentRequestCount ip w now tm = int (length (events_within tm ip w now)) \<and>
   ((\<forall>q \<in> set (queries_of tm ip). Timestamp q \<le> now) \<longrightarrow>
      GetRecentRequestCount ip w now tm = half_open_window_count (queries_of tm ip) w now) \<and>
   (stats tm ip = None \<longrightarrow> GetRecentRequestCount ip w now tm = 0)"
proof -
  have a: "GetRecentRequestCount ip w now tm =
     int (length (filter (\<lambda>q. now - w < Timestamp q) (queries_of tm ip)))"
    by (rule GetRecentRequestCount_eq [OF assms])
  then have a': "GetRecentRequestCount ip w now tm = int (length (events_within tm ip w now))"
    by (simp only: events_within_def)
  have b: "GetRecentRequestCount ip w now tm = half_open_window_count (queries_of tm ip) w now"
    if "\<forall>q \<in> set (queries_of tm ip). Timestamp q \<le> now"
  proof -
    from that have "filter (\<lambda>q. now - w < Timestamp q) (queries_of tm ip) =
        filter (\<lambda>q. now - w < Timestamp q \<and> Timestamp q \<le> now) (queries_of tm ip)"
      by (intro filter_cong) auto
    with a show ?thesis by (simp add: half_open_window_count_def)
  qed
  have c: "GetRecentRequestCount ip w now tm = 0" if "stats tm ip = None"
    using that by (simp add: GetRecentRequestCount_def)
  from a' b c show ?thesis by blast
qed

text \<open>
  At the least 64-bit duration the negation wraps to itself, the cutoff lies far in the
  past, and the event recorded at time 0 is counted.
\<close>

lemma least_duration_counts:
  "GetRecentRequestCount ''10.0.0.1'' (- (2 ^ 63)) Minute
     (RecordRequest ''10.0.0.1'' ''example.com'' ''A'' 0 NewTrafficMonitor) = 1"
  by (simp add: GetRecentRequestCount_def RecordRequest_def NewTrafficMonitor_def
      Minute_def Second_def wrap64_def)

lemma queries_two: "queries_of two_event_monitor ''10.0.0.1'' =
   [\<lparr>Domain_name = ''example.com'', QueryType = ''A'', Timestamp = 0\<rparr>,
    \<lparr>Domain_name = ''example.com'', QueryType = ''A'', Timestamp = 30 * Second\<rparr>]"
  by (simp add: two_event_monitor_def queries_of_RecordRequest queries_of_New)

theorem recent_count_window_witness:
  "- (2 ^ 63) < Minute \<and> Minute < 2 ^ 63 \<and>
   list_all (\<lambda>q. Timestamp q \<le> Minute) (queries_of two_event_monitor ''10.0.0.1'') \<and>
   GetRecentRequestCount ''10.0.0.1'' Minute Minute two_event_monitor = 1 \<and>
   half_open_window_count (queries_of two_event_monitor ''10.0.0.1'') Minute Minute = 1 \<and>
   stats two_event_monitor ''10.0.0.2'' = None \<and>
   GetRecentRequestCount ''10.0.0.2'' Minute Minute two_event_monitor = 0"
proof -
  have lo: "- (2 ^ 63) < Minute" and hi: "Minute < 2 ^ 63"
    by (simp_all add: Minute_def Second_def)
  have h: "\<forall>q \<in> set (queries_of two_event_monitor ''10.0.0.1''). Timestamp q \<le> Minute"
    by (simp add: queries_two Minute_def Second_def)
  have n: "stats two_event_monitor ''10.0.0.2'' = None"
    by (simp add: two_event_monitor_def RecordRequest_def NewTrafficMonitor_def)
  have v: "half_open_window_count (queries_of two_event_monitor ''10.0.0.1'') Minute Minute = 1"
    by (simp add: queries_two half_open_window_count_def Minute_def Second_def)
  from recent_count_window [OF lo hi, of "''10.0.0.1''" Minute two_event_monitor] h
  have c1: "GetRecentRequestCount ''10.0.0.1'' Minute Minute two_event_monitor =
      half_open_window_count (queries_of two_event_monitor ''10.0.0.1'') Minute Minute"
    by blast
  from recent_count_window [OF lo hi, of "''10.0.0.2''" Minute two_event_monitor] n
  have c2: "GetRecentRequestCount ''10.0.0.2'' Minute Minute two_event_monitor = 0"
    by blast
  from h have h': "list_all (\<lambda>q. Timestamp q \<le> Minute) (queries_of two_event_monitor ''10.0.0.1'')"
    by (simp only: list_all_iff)
  from lo hi h' n v c1 c2 show ?thesis by simp
qed


section \<open>Properties of the detector\<close>

lemma distinct_incr: "distinct (map fst m) \<Longrightarrow> distinct (map fst (incr k m))"
  by (simp add: incr_def distinct_update)

lemma count_in_incr: "count_in (incr k m) k' = (if k' = k then count_in m k + 1 else count_in m k')"
  by (simp add: incr_def count_in_def update_conv)

lemma keys_incr: "fst ` set (incr k m) = insert k (fst ` set m)"
  by (simp add: incr_def dom_update)

lemma distinct_domainCounts_loop:
  "distinct (map fst m) \<Longrightarrow> distinct (map fst (domainCounts_loop qs m))"
  by (induction qs arbitrary: m) (simp_all add: distinct_incr)

lemma count_in_domainCounts_loop:
  "count_in (domainCounts_loop qs m) k = count_in m k + name_count qs k"
  by (induction qs arbitrary: m) (auto simp: count_in_incr name_count_def)

lemma keys_domainCounts_loop:
  "fst ` set (domainCounts_loop qs m) = fst ` set m \<union> Domain_name ` set qs"
  by (induction qs arbitrary: m) (auto simp: keys_incr)

lemma list_ex_alist:
  assumes "distinct (map fst m)"
  shows "list_ex (\<lambda>(k, c). P c) m \<longleftrightarrow> (\<exists>k \<in> fst ` set m. P (count_in m k))"
proof -
  have "\<And>k c. (k, c) \<in> set m \<Longrightarrow> count_in m k = c"
    using assms by (simp add: count_in_def)
  then show ?thesis
    by (force simp: list_ex_iff)
qed

lemma checkRepeatedQueries_iff:
  "checkRepeatedQueries qs \<longleftrightarrow> repeated_query_condition qs"
proof -
  have d: "distinct (map fst (domainCounts_loop qs []))"
    by (simp add: distinct_domainCounts_loop)
  have c: "count_in (domainCounts_loop qs []) k = name_count qs k" for k
    using count_in_domainCounts_loop [of qs "[]" k] by (simp add: count_in_def)
  have k: "fst ` set (domainCounts_loop qs []) = Domain_name ` set qs"
    by (simp add: keys_domainCounts_loop)
  have e: "list_ex (\<lambda>(domain, count). int (length qs) < 2 * count \<and> 10 < count)
              (domainCounts_loop qs []) \<longleftrightarrow>
           (\<exists>name \<in> Domain_name ` set qs.
              int (length qs) < 2 * name_count qs name \<and> 10 < name_count qs name)"
    using list_ex_alist [OF d, of "\<lambda>count. int (length qs) < 2 * count \<and> 10 < count"]
    by (simp only: c k)
  have f: "list_ex (\<lambda>name. int (length qs) < 2 * name_count qs name \<and> 10 < name_count qs name)
              (map Domain_name qs) \<longleftrightarrow>
           (\<exists>name \<in> Domain_name ` set qs.
              int (length qs) < 2 * name_count qs name \<and> 10 < name_count qs name)"
    by (simp only: list_ex_iff set_map)
  show ?thesis
    unfolding checkRepeatedQueries_def repeated_query_condition_def e f
    by auto
qed

lemma AnalyzeTraffic_kind:
  "AttackType (AnalyzeTraffic d ip tm now) =
     (if rateLimit d < GetRecentRequestCount ip (1 * Minute) now tm then ''high_request_rate''
      else if checkRepeatedQueries (GetRecentQueries ip (1 * Minute) now tm) then ''repeated_queries''
      else if checkRandomSubdomains (GetRecentQueries ip (1 * Minute) now tm) then ''random_subdomain''
      else if checkQueryBurst (GetRecentQueries ip (1 * Minute) now tm) now then ''query_burst''
      else [])"
  by (simp add: AnalyzeTraffic_def Let_def)


subsection \<open>A flood of one name\<close>

lemma events_for_flood: "events_for ip (flood ip name n) = map (flood_event name) [0..<n]"
  by (simp add: events_for_def flood_def event_of_def flood_event_def comp_def)

lemma queries_of_flood:
  "queries_of (record_all (flood ip name n) NewTrafficMonitor) ip =
     map (flood_event name) [n - 100..<n]"
  by (simp add: queries_of_record_all events_for_flood last_n_def drop_map)

lemma filter_flood_all:
  assumes "cutoff < 0"
  shows "filter (\<lambda>q. cutoff < Timestamp q) (map (flood_event name) [a..<b]) =
           map (flood_event name) [a..<b]"
proof -
  have "\<forall>q \<in> set (map (flood_event name) [a..<b]). cutoff < Timestamp q"
    using assms by (auto simp: flood_event_def intro: less_le_trans)
  then show ?thesis by (simp only: filter_True)
qed

lemma name_count_flood: "name_count (map (flood_event name) [a..<b]) name = int (b - a)"
  by (simp add: name_count_def flood_event_def filter_map comp_def)

lemma repeated_flood:
  "repeated_query_condition (map (flood_event name) [a..<b]) \<longleftrightarrow> 20 \<le> b - a"
proof (cases "20 \<le> b - a")
  case True
  then have "a < b" by simp
  then have "a \<in> set [a..<b]" by simp
  then have "flood_event name a \<in> set (map (flood_event name) [a..<b])"
    by (simp only: set_map) (rule imageI)
  then have m: "name \<in> set (map Domain_name (map (flood_event name) [a..<b]))"
    by (force simp: flood_event_def)
  have "int (length (map (flood_event name) [a..<b]))
          < 2 * name_count (map (flood_event name) [a..<b]) name \<and>
        10 < name_count (map (flood_event name) [a..<b]) name"
    using True by (simp add: name_count_flood) arith
  with m have "list_ex (\<lambda>k. int (length (map (flood_event name) [a..<b]))
          < 2 * name_count (map (flood_event name) [a..<b]) k \<and>
        10 < name_count (map (flood_event name) [a..<b]) k)
       (map Domain_name (map (flood_event name) [a..<b]))"
    unfolding list_ex_iff by (rule bexI [rotated])
  with True show ?thesis
    by (simp add: repeated_query_condition_def)
next
  case False
  then show ?thesis by (simp add: repeated_query_condition_def)
qed

lemma count_flood:
  assumes "now < w" and "- (2 ^ 63) < w" and "w < 2 ^ 63"
  shows "GetRecentRequestCount ip w now (record_all (flood ip name n) NewTrafficMonitor) =
           int (n - (n - 100))"
proof -
  from assms have "now - w < 0" by simp
  then show ?thesis
    by (simp only: GetRecentRequestCount_eq [OF assms(2,3)] queries_of_flood filter_flood_all
        length_map length_upt)
qed

lemma recent_flood:
  assumes "now < w" and "- (2 ^ 63) < w" and "w < 2 ^ 63"
  shows "GetRecentQueries ip w now (record_all (flood ip name n) NewTrafficMonitor) =
           map (flood_event name) [n - 100..<n]"
proof -
  from assms have "now - w < 0" by simp
  then show ?thesis
    by (simp only: GetRecentQueries_eq [OF assms(2,3)] queries_of_flood filter_flood_all)
qed

lemma burst_flood:
  assumes "now < 10 * Second"
  shows "checkQueryBurst (map (flood_event name) [a..<b]) now \<longleftrightarrow> 50 < b - a"
proof -
  from assms have "now - 10 * Second < 0" by simp
  then have "count_loop (now - 10 * Second) (map (flood_event name) [a..<b]) 0 = int (b - a)"
    by (simp only: count_loop_eq filter_flood_all length_map length_upt)
  then show ?thesis
    by (simp only: checkQueryBurst_def length_map length_upt) auto
qed


subsection \<open>The high-rate check and the buffer cap\<close>

lemma count_le_100:
  "GetRecentRequestCount ip w now (record_all calls NewTrafficMonitor) \<le> 100"
proof -
  have "length (filter (\<lambda>q. now + wrap64 (- w) < Timestamp q)
                  (queries_of (record_all calls NewTrafficMonitor) ip))
          \<le> length (queries_of (record_all calls NewTrafficMonitor) ip)"
    by (rule length_filter_le)
  also have "\<dots> \<le> 100"
    by (simp add: queries_of_record_all length_last_n)
  finally show ?thesis
    by (simp add: GetRecentRequestCount_cutoff)
qed

lemma high_rate_unreachable:
  assumes "100 \<le> rateLimit d"
  shows "AttackType (AnalyzeTraffic d ip (record_all calls NewTrafficMonitor) now) \<noteq> ''high_request_rate''"
proof -
  from count_le_100 [of ip "1 * Minute" now calls] assms
  have "\<not> rateLimit d < GetRecentRequestCount ip (1 * Minute) now (record_all calls NewTrafficMonitor)"
    by simp
  then show ?thesis
    by (simp add: AnalyzeTraffic_kind)
qed


text \<open>
  C1. The scenario of \<open>TestHighRequestRate\<close>: 150 requests of one address for
  \<open>example.com\<close> inside one minute, limit 100. The buffer keeps 100 of them, the
  recent count is 100, which does not exceed the limit, and the verdict comes from the
  second check: an attack of kind \<open>repeated_queries\<close> that should be blocked, not
  \<open>high_request_rate\<close>.
\<close>

theorem scenario_A_verdict:
  "GetRecentRequestCount ''192.168.1.100'' (1 * Minute) 150000000
     (record_all (flood ''192.168.1.100'' ''example.com'' 150) NewTrafficMonitor) = 100 \<and>
   AnalyzeTraffic (NewDDoSDetector 100) ''192.168.1.100''
     (record_all (flood ''192.168.1.100'' ''example.com'' 150) NewTrafficMonitor) 150000000 =
     \<lparr>IsAttack = True, AttackType = ''repeated_queries'', Severity = ''medium'',
      Description = ''Repeated queries to same domain detected'', ShouldBlock = True\<rparr>"
proof -
  have t: "(150000000::int) < 1 * Minute" by (simp add: Minute_def Second_def)
  have c: "GetRecentRequestCount ''192.168.1.100'' (1 * Minute) 150000000
     (record_all (flood ''192.168.1.100'' ''example.com'' 150) NewTrafficMonitor) = 100"
    by (simp only: count_flood [OF t Minute_range])
  have r: "checkRepeatedQueries (GetRecentQueries ''192.168.1.100'' (1 * Minute) 150000000
     (record_all (flood ''192.168.1.100'' ''example.com'' 150) NewTrafficMonitor))"
    by (simp only: recent_flood [OF t Minute_range] checkRepeatedQueries_iff repeated_flood)
  from c r show ?thesis
    by (simp add: AnalyzeTraffic_def Let_def NewDDoSDetector_def)
qed


text \<open>
  C4. The attack kind is decided by the first check that holds, in the order high request
  rate, repeated queries, random subdomains, query burst. In particular, whenever the
  recent one-minute count exceeds the limit the verdict is an attack of kind
  \<open>high_request_rate\<close>, whatever the later checks would say of the same events.
\<close>

theorem high_rate_has_priority:
  "AttackType (AnalyzeTraffic d ip tm now) =
     (if rateLimit d < GetRecentRequestCount ip (1 * Minute) now tm then ''high_request_rate''
      else if checkRepeatedQueries (GetRecentQueries ip (1 * Minute) now tm) then ''repeated_queries''
      else if checkRandomSubdomains (GetRecentQueries ip (1 * Minute) now tm) then ''random_subdomain''
      else if checkQueryBurst (GetRecentQueries ip (1 * Minute) now tm) now then ''query_burst''
      else []) \<and>
   (rateLimit d < GetRecentRequestCount ip (1 * Minute) now tm \<longrightarrow>
      IsAttack (AnalyzeTraffic d ip tm now) \<and>
      AttackType (AnalyzeTraffic d ip tm now) = ''high_request_rate'')"
  by (simp add: AnalyzeTraffic_def Let_def)

theorem high_rate_has_priority_witness:
  "rateLimit (NewDDoSDetector 10)
     < GetRecentRequestCount ''10.0.0.1'' (1 * Minute) 60000000
         (record_all (flood ''10.0.0.1'' ''example.com'' 60) NewTrafficMonitor) \<and>
   checkRepeatedQueries (GetRecentQueries ''10.0.0.1'' (1 * Minute) 60000000
         (record_all (flood ''10.0.0.1'' ''example.com'' 60) NewTrafficMonitor)) \<and>
   checkQueryBurst (GetRecentQueries ''10.0.0.1'' (1 * Minute) 60000000
         (record_all (flood ''10.0.0.1'' ''example.com'' 60) NewTrafficMonitor)) 60000000 \<and>
   IsAttack (AnalyzeTraffic (NewDDoSDetector 10) ''10.0.0.1''
         (record_all (flood ''10.0.0.1'' ''example.com'' 60) NewTrafficMonitor) 60000000) \<and>
   AttackType (AnalyzeTraffic (NewDDoSDetector 10) ''10.0.0.1''
         (record_all (flood ''10.0.0.1'' ''example.com'' 60) NewTrafficMonitor) 60000000) =
     ''high_request_rate''"
proof -
  let ?tm = "record_all (flood ''10.0.0.1'' ''example.com'' 60) NewTrafficMonitor"
  have t: "(60000000::int) < 1 * Minute" by (simp add: Minute_def Second_def)
  have t': "(60000000::int) < 10 * Second" by (simp add: Second_def)
  have c: "GetRecentRequestCount ''10.0.0.1'' (1 * Minute) 60000000 ?tm = 60"
    by (simp only: count_flood [OF t Minute_range])
  then have h: "rateLimit (NewDDoSDetector 10)
      < GetRecentRequestCount ''10.0.0.1'' (1 * Minute) 60000000 ?tm"
    by (simp add: NewDDoSDetector_def)
  have r: "checkRepeatedQueries (GetRecentQueries ''10.0.0.1'' (1 * Minute) 60000000 ?tm)"
    by (simp only: recent_flood [OF t Minute_range] checkRepeatedQueries_iff repeated_flood)
  have b: "checkQueryBurst (GetRecentQueries ''10.0.0.1'' (1 * Minute) 60000000 ?tm) 60000000"
    by (simp only: recent_flood [OF t Minute_range] burst_flood [OF t'])
  from high_rate_has_priority [of "NewDDoSDetector 10" "''10.0.0.1''" ?tm 60000000] h
  have "IsAttack (AnalyzeTraffic (NewDDoSDetector 10) ''10.0.0.1'' ?tm 60000000) \<and>
        AttackType (AnalyzeTraffic (NewDDoSDetector 10) ''10.0.0.1'' ?tm 60000000) = ''high_request_rate''"
    by blast
  with h r b show ?thesis by blast
qed


text \<open>
  C7 (as stated). Twenty requests for one name with limit 10: the repeated-query condition
  holds of the last minute's events and \<open>checkRepeatedQueries\<close> is true of them, but
  the high-rate check comes first and the verdict is \<open>high_request_rate\<close> with severity
  \<open>low\<close> and no block.
\<close>

theorem repeated_query_preempted_counterexample:
  "repeated_query_condition
     (events_within (record_all (flood ''10.0.0.1'' ''example.com'' 20) NewTrafficMonitor)
        ''10.0.0.1'' (1 * Minute) 20000000) \<and>
   checkRepeatedQueries (GetRecentQueries ''10.0.0.1'' (1 * Minute) 20000000
       (record_all (flood ''10.0.0.1'' ''example.com'' 20) NewTrafficMonitor)) \<and>
   AnalyzeTraffic (NewDDoSDetector 10) ''10.0.0.1''
       (record_all (flood ''10.0.0.1'' ''example.com'' 20) NewTrafficMonitor) 20000000 =
     \<lparr>IsAttack = True, AttackType = ''high_request_rate'', Severity = ''low'',
      Description = ''Excessive request rate detected'', ShouldBlock = False\<rparr>"
proof -
  let ?tm = "record_all (flood ''10.0.0.1'' ''example.com'' 20) NewTrafficMonitor"
  have t: "(20000000::int) < 1 * Minute" by (simp add: Minute_def Second_def)
  have c: "GetRecentRequestCount ''10.0.0.1'' (1 * Minute) 20000000 ?tm = 20"
    by (simp only: count_flood [OF t Minute_range])
  have q: "GetRecentQueries ''10.0.0.1'' (1 * Minute) 20000000 ?tm =
      events_within ?tm ''10.0.0.1'' (1 * Minute) 20000000"
    by (simp only: GetRecentQueries_eq [OF Minute_range] events_within_def)
  have r: "checkRepeatedQueries (GetRecentQueries ''10.0.0.1'' (1 * Minute) 20000000 ?tm)"
    by (simp only: recent_flood [OF t Minute_range] checkRepeatedQueries_iff repeated_flood)
  then have r': "repeated_query_condition
      (events_within ?tm ''10.0.0.1'' (1 * Minute) 20000000)"
    by (simp only: q checkRepeatedQueries_iff)
  have v: "AnalyzeTraffic (NewDDoSDetector 10) ''10.0.0.1'' ?tm 20000000 =
     \<lparr>IsAttack = True, AttackType = ''high_request_rate'', Severity = ''low'',
      Description = ''Excessive request rate detected'', ShouldBlock = False\<rparr>"
    using c by (simp add: AnalyzeTraffic_def Let_def NewDDoSDetector_def calculateSeverity_def
        ratio_gt_def wrap64_def)
  from r r' v show ?thesis by blast
qed


text \<open>
  C7 (amended). \<open>checkRepeatedQueries\<close> holds of a list of events exactly when it has at
  least 20 events and one queried name makes up more than half of them and occurs more
  than 10 times. The verdict has kind \<open>repeated_queries\<close> exactly when the recent
  one-minute count does not exceed the limit and that condition holds of the last
  minute's events; such a verdict is an attack of severity \<open>medium\<close> that should be
  blocked.
\<close>

theorem repeated_query_signature:
  "(checkRepeatedQueries events \<longleftrightarrow> repeated_query_condition events) \<and>
   (AttackType (AnalyzeTraffic d ip tm now) = ''repeated_queries'' \<longleftrightarrow>
      GetRecentRequestCount ip (1 * Minute) now tm \<le> rateLimit d \<and>
      repeated_query_condition (events_within tm ip (1 * Minute) now)) \<and>
   (AttackType (AnalyzeTraffic d ip tm now) = ''repeated_queries'' \<longrightarrow>
      IsAttack (AnalyzeTraffic d ip tm now) \<and>
      Severity (AnalyzeTraffic d ip tm now) = ''medium'' \<and>
      ShouldBlock (AnalyzeTraffic d ip tm now))"
proof -
  have a: "checkRepeatedQueries events \<longleftrightarrow> repeated_query_condition events"
    by (rule checkRepeatedQueries_iff)
  have q: "GetRecentQueries ip (1 * Minute) now tm = events_within tm ip (1 * Minute) now"
    by (simp only: GetRecentQueries_eq [OF Minute_range] events_within_def)
  have b: "AttackType (AnalyzeTraffic d ip tm now) = ''repeated_queries'' \<longleftrightarrow>
      GetRecentRequestCount ip (1 * Minute) now tm \<le> rateLimit d \<and>
      repeated_query_condition (events_within tm ip (1 * Minute) now)"
    unfolding q [symmetric] checkRepeatedQueries_iff [symmetric]
    by (simp add: AnalyzeTraffic_kind)
  have c: "IsAttack (AnalyzeTraffic d ip tm now) \<and>
      Severity (AnalyzeTraffic d ip tm now) = ''medium'' \<and>
      ShouldBlock (AnalyzeTraffic d ip tm now)"
    if "AttackType (AnalyzeTraffic d ip tm now) = ''repeated_queries''"
    using that by (simp add: AnalyzeTraffic_def Let_def split: if_splits)
  from a b c show ?thesis by blast
qed

theorem repeated_query_signature_witness:
  "AttackType (AnalyzeTraffic (NewDDoSDetector 100) ''192.168.1.101''
       (record_all (flood ''192.168.1.101'' ''same-domain.com'' 30) NewTrafficMonitor) 30000000) =
     ''repeated_queries'' \<and>
   GetRecentRequestCount ''192.168.1.101'' (1 * Minute) 30000000
       (record_all (flood ''192.168.1.101'' ''same-domain.com'' 30) NewTrafficMonitor) \<le> 100 \<and>
   IsAttack (AnalyzeTraffic (NewDDoSDetector 100) ''192.168.1.101''
       (record_all (flood ''192.168.1.101'' ''same-domain.com'' 30) NewTrafficMonitor) 30000000) \<and>
   Severity (AnalyzeTraffic (NewDDoSDetector 100) ''192.168.1.101''
       (record_all (flood ''192.168.1.101'' ''same-domain.com'' 30) NewTrafficMonitor) 30000000) = ''medium'' \<and>
   ShouldBlock (AnalyzeTraffic (NewDDoSDetector 100) ''192.168.1.101''
       (record_all (flood ''192.168.1.101'' ''same-domain.com'' 30) NewTrafficMonitor) 30000000)"
proof -
  let ?tm = "record_all (flood ''192.168.1.101'' ''same-domain.com'' 30) NewTrafficMonitor"
  have t: "(30000000::int) < 1 * Minute" by (simp add: Minute_def Second_def)
  have c: "GetRecentRequestCount ''192.168.1.101'' (1 * Minute) 30000000 ?tm = 30"
    by (simp only: count_flood [OF t Minute_range])
  have r: "checkRepeatedQueries (GetRecentQueries ''192.168.1.101'' (1 * Minute) 30000000 ?tm)"
    by (simp only: recent_flood [OF t Minute_range] checkRepeatedQueries_iff repeated_flood)
  from c r have k: "AttackType (AnalyzeTraffic (NewDDoSDetector 100) ''192.168.1.101'' ?tm 30000000) =
     ''repeated_queries''"
    by (simp add: AnalyzeTraffic_kind NewDDoSDetector_def)
  from repeated_query_signature [of _ "NewDDoSDetector 100" "''192.168.1.101''" ?tm 30000000] k
  have "IsAttack (AnalyzeTraffic (NewDDoSDetector 100) ''192.168.1.101'' ?tm 30000000) \<and>
      Severity (AnalyzeTraffic (NewDDoSDetector 100) ''192.168.1.101'' ?tm 30000000) = ''medium'' \<and>
      ShouldBlock (AnalyzeTraffic (NewDDoSDetector 100) ''192.168.1.101'' ?tm 30000000)"
    by blast
  with k c show ?thesis by simp
qed


section \<open>Properties of the blocker\<close>

lemma wrap64_300: "wrap64 (300 * Second) = 300 * Second"
  by (simp add: wrap64_def Second_def)

lemma wrap64_300_ns: "wrap64 300000000000 = 300000000000"
  by (simp add: wrap64_def)

lemma BlockIP_until:
  "\<exists>e. blockedIPs (BlockIP s reason t0 b) s = Some e \<and>
        BlockUntil e = t0 + wrap64 (blockDuration b * Second)"
  by (simp add: BlockIP_def Let_def split: option.splits)


text \<open>
  C5. With a block duration of 300 seconds, after \<open>BlockIP\<close> for \<open>s\<close> at \<open>t0\<close>,
  \<open>IsBlocked\<close> at \<open>t0 + 299 s\<close> answers true and leaves the blocker as it is;
  \<open>IsBlocked\<close> at \<open>t0 + 301 s\<close> answers false and removes the entry of \<open>s\<close>.
\<close>

theorem block_expiry_scenario:
  "fst (IsBlocked s (t0 + 299 * Second) (BlockIP s reason t0 (b\<lparr>blockDuration := 300\<rparr>))) \<and>
   snd (IsBlocked s (t0 + 299 * Second) (BlockIP s reason t0 (b\<lparr>blockDuration := 300\<rparr>))) =
     BlockIP s reason t0 (b\<lparr>blockDuration := 300\<rparr>) \<and>
   blockedIPs (BlockIP s reason t0 (b\<lparr>blockDuration := 300\<rparr>)) s \<noteq> None \<and>
   \<not> fst (IsBlocked s (t0 + 301 * Second) (BlockIP s reason t0 (b\<lparr>blockDuration := 300\<rparr>))) \<and>
   blockedIPs (snd (IsBlocked s (t0 + 301 * Second) (BlockIP s reason t0 (b\<lparr>blockDuration := 300\<rparr>)))) s = None"
proof -
  let ?b = "BlockIP s reason t0 (b\<lparr>blockDuration := 300\<rparr>)"
  from BlockIP_until [of s reason t0 "b\<lparr>blockDuration := 300\<rparr>"]
  obtain e where e: "blockedIPs ?b s = Some e" and u: "BlockUntil e = t0 + 300 * Second"
    by (auto simp: wrap64_300)
  from u have "t0 + 299 * Second < BlockUntil e" and "\<not> t0 + 301 * Second < BlockUntil e"
    by (simp_all add: Second_def)
  with e show ?thesis
    by (simp add: IsBlocked_def)
qed


text \<open>
  C8. From any blocker, after \<open>UnblockIP\<close> for \<open>s\<close> the address has neither a block
  nor a rate-limit entry, \<open>IsBlocked\<close> for \<open>s\<close> answers false at any time and changes
  nothing, and a second \<open>UnblockIP\<close> for \<open>s\<close> leaves the blocker unchanged.
\<close>

theorem unblock_idempotent:
  "\<not> fst (IsBlocked s now (UnblockIP s b)) \<and>
   snd (IsBlocked s now (UnblockIP s b)) = UnblockIP s b \<and>
   blockedIPs (UnblockIP s b) s = None \<and>
   rateLimitedIPs (UnblockIP s b) s = None \<and>
   UnblockIP s (UnblockIP s b) = UnblockIP s b"
  by (simp add: IsBlocked_def UnblockIP_def)


text \<open>
  C10. When \<open>s\<close> has a block entry whose expiry is not after \<open>now\<close>, \<open>BlockIP\<close>
  for \<open>s\<close> at \<open>now\<close> keeps that entry: its count is incremented, its reason is
  replaced by the new one, its expiry is set from \<open>now\<close>, and its \<open>BlockedAt\<close> stays.
\<close>

theorem stale_block_escalates:
  assumes "blockedIPs b s = Some e" and "BlockUntil e \<le> now"
  shows "blockedIPs (BlockIP s reason now b) s =
           Some (e\<lparr>BlockUntil := now + wrap64 (blockDuration b * Second),
                   BlockCount := BlockCount e + 1,
                   Reason := reason\<rparr>)"
  using assms by (simp add: BlockIP_def Let_def)

lemma expired_block_entry:
  "blockedIPs expired_block ''10.0.0.1'' =
     Some \<lparr>IP = ''10.0.0.1'', BlockedAt = 0, BlockUntil = 300 * Second,
           Reason = ''high_request_rate'', BlockCount = 1\<rparr>"
  by (simp add: expired_block_def BlockIP_def NewIPBlocker_def Let_def wrap64_300)

theorem stale_block_escalates_witness:
  "blockedIPs expired_block ''10.0.0.1'' =
     Some \<lparr>IP = ''10.0.0.1'', BlockedAt = 0, BlockUntil = 300 * Second,
           Reason = ''high_request_rate'', BlockCount = 1\<rparr> \<and>
   300 * Second \<le> 301 * Second \<and>
   blockedIPs (BlockIP ''10.0.0.1'' ''repeated_queries'' (301 * Second) expired_block) ''10.0.0.1'' =
     Some \<lparr>IP = ''10.0.0.1'', BlockedAt = 0, BlockUntil = 601 * Second,
           Reason = ''repeated_queries'', BlockCount = 2\<rparr>"
proof -
  have le: "BlockUntil \<lparr>IP = ''10.0.0.1'', BlockedAt = 0, BlockUntil = 300 * Second,
           Reason = ''high_request_rate'', BlockCount = 1\<rparr> \<le> 301 * Second"
    by (simp add: Second_def)
  have d: "blockDuration expired_block = 300"
    by (simp add: expired_block_def BlockIP_def NewIPBlocker_def Let_def)
  from stale_block_escalates [OF expired_block_entry le, of "''repeated_queries''"]
  show ?thesis
    by (simp add: expired_block_entry d wrap64_300_ns Second_def)
qed


subsection \<open>Expiries along a run\<close>

lemma blockDuration_step: "blockDuration (blocker_step t c b) = blockDuration b"
  by (cases c) (auto simp: IsBlocked_def IsRateLimited_def BlockIP_def RateLimitIP_def
      UnblockIP_def cleanup_def Let_def split: option.splits)

lemma until_bounded_step:
  assumes "until_bounded T b" and "t \<le> T"
  shows "until_bounded T (blocker_step t c b)"
  using assms
  by (cases c)
    (auto simp: until_bounded_def block_window_def BlockIP_def IsBlocked_def IsRateLimited_def
       RateLimitIP_def UnblockIP_def cleanup_def Let_def split: option.splits if_splits)

lemma until_bounded_run:
  assumes "until_bounded T b" and "\<forall>t \<in> set (map fst calls). t \<le> T"
  shows "until_bounded T (run_calls calls b)"
  using assms
proof (induction calls arbitrary: b)
  case Nil
  then show ?case by simp
next
  case (Cons a calls)
  obtain t c where a: "a = (t, c)" by (cases a)
  with Cons.prems have "until_bounded T (blocker_step t c b)"
    by (intro until_bounded_step) auto
  with Cons a show ?case by simp
qed

lemma blockDuration_run: "blockDuration (run_calls calls b) = blockDuration b"
  by (induction calls arbitrary: b) (auto simp: blockDuration_step)

lemma until_bounded_New: "until_bounded T (NewIPBlocker d)"
  by (simp add: until_bounded_def NewIPBlocker_def)


text \<open>
  C6. After any run of calls on a new blocker, made at non-decreasing times up to \<open>now\<close>,
  if \<open>s\<close> has an entry that is still active at \<open>now\<close>, then \<open>BlockIP\<close> for \<open>s\<close> at
  \<open>now\<close> raises its count by exactly one and sets its expiry to \<open>now\<close> plus the block
  duration, which is not earlier than the old expiry.
\<close>

theorem escalation_monotone:
  assumes "sorted (map fst calls @ [now])"
    and "blockedIPs (run_calls calls (NewIPBlocker d)) s = Some e"
    and "now < BlockUntil e"
  shows "\<exists>e'. blockedIPs (BlockIP s reason now (run_calls calls (NewIPBlocker d))) s = Some e' \<and>
           BlockCount e' = BlockCount e + 1 \<and>
           BlockUntil e' = now + wrap64 (d * Second) \<and>
           BlockUntil e \<le> BlockUntil e'"
proof -
  let ?b = "run_calls calls (NewIPBlocker d)"
  from assms(1) have "\<forall>t \<in> set (map fst calls). t \<le> now"
    by (simp add: sorted_append)
  then have "until_bounded now ?b"
    by (intro until_bounded_run until_bounded_New)
  moreover have "blockDuration ?b = d"
    by (simp add: blockDuration_run NewIPBlocker_def)
  ultimately have "BlockUntil e \<le> now + wrap64 (d * Second)"
    using assms(2) by (auto simp: until_bounded_def block_window_def)
  with assms(2) \<open>blockDuration ?b = d\<close> show ?thesis
    by (simp add: BlockIP_def Let_def)
qed

theorem escalation_monotone_witness:
  "sorted (map fst [(0, CallBlockIP ''10.0.0.1'' ''high_request_rate'')] @ [100 * Second]) \<and>
   blockedIPs (run_calls [(0, CallBlockIP ''10.0.0.1'' ''high_request_rate'')] (NewIPBlocker 300)) ''10.0.0.1'' =
     Some \<lparr>IP = ''10.0.0.1'', BlockedAt = 0, BlockUntil = 300 * Second,
           Reason = ''high_request_rate'', BlockCount = 1\<rparr> \<and>
   100 * Second < 300 * Second \<and>
   (\<exists>e'. blockedIPs (BlockIP ''10.0.0.1'' ''repeated_queries'' (100 * Second)
              (run_calls [(0, CallBlockIP ''10.0.0.1'' ''high_request_rate'')] (NewIPBlocker 300))) ''10.0.0.1'' = Some e' \<and>
          BlockCount e' = 2 \<and> BlockUntil e' = 400 * Second \<and> 300 * Second \<le> BlockUntil e')"
proof -
  have s: "sorted (map fst [(0, CallBlockIP ''10.0.0.1'' ''high_request_rate'')] @ [100 * Second])"
    by (simp add: Second_def)
  have e: "blockedIPs (run_calls [(0, CallBlockIP ''10.0.0.1'' ''high_request_rate'')] (NewIPBlocker 300)) ''10.0.0.1'' =
     Some \<lparr>IP = ''10.0.0.1'', BlockedAt = 0, BlockUntil = 300 * Second,
           Reason = ''high_request_rate'', BlockCount = 1\<rparr>"
    by (simp add: BlockIP_def NewIPBlocker_def Let_def wrap64_300)
  have a: "100 * Second < BlockUntil \<lparr>IP = ''10.0.0.1'', BlockedAt = 0, BlockUntil = 300 * Second,
           Reason = ''high_request_rate'', BlockCount = 1\<rparr>"
    by (simp add: Second_def)
  from escalation_monotone [OF s e a, of "''repeated_queries''"] s e
  show ?thesis
    by (simp add: wrap64_300_ns Second_def)
qed


text \<open>
  C9. \<open>IsBlocked\<close> and \<open>IsRateLimited\<close> run under the read lock, and each deletes
  the entry of the address from its map when that entry has expired.
\<close>

theorem read_lock_delete:
  "lock_taken (CallIsBlocked ''10.0.0.1'') = RLock \<and>
   blockedIPs expired_block ''10.0.0.1'' \<noteq> None \<and>
   blockedIPs (blocker_step (301 * Second) (CallIsBlocked ''10.0.0.1'') expired_block) ''10.0.0.1'' = None \<and>
   lock_taken (CallIsRateLimited ''10.0.0.1'') = RLock \<and>
   rateLimitedIPs (RateLimitIP ''10.0.0.1'' 0 (NewIPBlocker 300)) ''10.0.0.1'' \<noteq> None \<and>
   rateLimitedIPs (blocker_step (31 * Second) (CallIsRateLimited ''10.0.0.1'')
       (RateLimitIP ''10.0.0.1'' 0 (NewIPBlocker 300))) ''10.0.0.1'' = None"
  by (simp add: expired_block_entry IsBlocked_def IsRateLimited_def RateLimitIP_def NewIPBlocker_def Second_def)


end
